theory Spec2Isabelle
  imports Complex_Main "HOL-Library.AList"
begin

section \<open>The plugin manager of \<open>echo/plugins/sdk_manager.py\<close>\<close>

text \<open>
  The module keeps four collections (two dictionaries keyed by plugin name, two sets of
  names) and fills them from contracts that an external registry hands over. Everything a
  contract, an agent or the model factory does is outside the module, so each of their
  methods is modelled by its outcome: either the value it returns or the exception it
  raises. Attribute reads (\<open>contract.name\<close>, \<open>contract.plugin_class\<close>, \<open>metadata.name\<close>,
  \<open>metadata.version\<close>, ...) are fields.

  Python dictionaries keep insertion order and \<open>d[k] = v\<close> on a present key keeps the key's
  position: they are association lists changed with \<open>AList.update\<close> and read with
  \<open>map_of\<close>. Python sets are HOL sets.
\<close>

subsection \<open>Exceptions and outcomes\<close>

datatype exn =
    Exception string    \<comment> \<open>raised by a plugin, an agent or the model backend\<close>
  | KeyError string     \<comment> \<open>a dictionary subscript with a missing key\<close>
  | SyntaxError         \<comment> \<open>raised by \<open>exec\<close> on source text that does not parse\<close>

type_synonym 'a res = "exn + 'a"

subsection \<open>The objects the module receives\<close>

datatype tool = Tool string

datatype tool_node = ToolNode "tool list"

type_synonym model_handle = string
type_synonym bound_model = string
type_synonym node = string

text \<open>What \<open>metadata.get_model_config()\<close> returns, and the \<open>ModelConfig\<close> of the core.\<close>

record model_requirements =
  req_provider :: string
  req_model_name :: string
  req_temperature :: real
  req_max_tokens :: int
  req_additional_params :: "(string \<times> string) list"

record ModelConfig =
  provider :: string
  model_name :: string
  temperature :: real
  max_tokens :: int
  additional_params :: "(string \<times> string) list"

record PluginMetadata =
  name :: string
  version :: string
  description :: string
  capabilities :: "string list"
  get_model_config :: "model_requirements res"

record PluginAgent =
  get_tools :: "tool list res"
  bind_model :: "model_handle \<Rightarrow> bound_model res"
  initialize :: "unit res"
  create_agent_node :: "node res"

record PluginContract =
  contract_name :: string
  plugin_class :: string
  get_metadata :: "PluginMetadata res"
  validate_dependencies :: "string list res"
  create_agent :: "PluginAgent res"
  health_check :: "(string \<times> bool) list res"

text \<open>
  A bundle is a Python object: two bundles built from the same contract are still two
  objects. \<open>object_id\<close> is the serial number the bundle got when its constructor returned.
\<close>

record SDKPluginBundle =
  object_id :: nat
  contract :: PluginContract
  metadata :: PluginMetadata
  agent :: PluginAgent
  bound_model :: bound_model
  tools :: "tool list"
  tool_node :: tool_node
  agent_node :: node

text \<open>
  The manager. \<open>allocated\<close> counts the bundle objects constructed so far; it is the source
  of \<open>object_id\<close> and no field of the Python class.
\<close>

record SDKPluginManager =
  llm_factory :: "ModelConfig \<Rightarrow> model_handle res"
  plugin_bundles :: "(string \<times> SDKPluginBundle) list"
  plugin_contracts :: "(string \<times> PluginContract) list"
  healthy_plugins :: "string set"
  failed_plugins :: "string set"
  allocated :: nat

text \<open>
  What the module finds around it: the names imported from \<open>echo_sdk\<close> at module level,
  the plugin directories under \<open>plugins_dir\<close> and what importing each of them does.
\<close>

record world =
  SDK_AVAILABLE :: bool
  validate_plugin_structure :: "(string \<Rightarrow> string list res) option"
  plugin_directories :: "string list"
  import_module :: "string \<Rightarrow> unit res"
  discover_plugins :: "PluginContract list res"

subsection \<open>The calls a construction makes, in order\<close>

datatype call =
    Call_get_metadata
  | Call_validate_plugin_structure
  | Call_validate_dependencies
  | Call_create_agent
  | Call_get_model_config
  | Call_create_base_model
  | Call_get_tools
  | Call_bind_model
  | Call_initialize
  | Call_create_agent_node

text \<open>
  \<open>call c r k\<close>: make the external call \<open>c\<close> whose outcome is \<open>r\<close>; if it raised, stop with
  the exception, otherwise go on with \<open>k\<close>. The first component is the list of calls made.
\<close>

definition call :: "call \<Rightarrow> 'a res \<Rightarrow> ('a \<Rightarrow> call list \<times> 'b res) \<Rightarrow> call list \<times> 'b res" where
  "call c r k =
     (case r of
        Inl e \<Rightarrow> ([c], Inl e)
      | Inr v \<Rightarrow> (case k v of (cs, out) \<Rightarrow> (c # cs, out)))"

subsection \<open>\<open>SDKPluginBundle.__init__\<close>\<close>

definition SDKPluginBundle_init ::
  "nat \<Rightarrow> PluginContract \<Rightarrow> PluginAgent \<Rightarrow> bound_model \<Rightarrow> tool list \<Rightarrow>
   call list \<times> SDKPluginBundle res" where
  "SDKPluginBundle_init oid c a bm ts =
     call Call_get_metadata (get_metadata c) (\<lambda>md.
     call Call_create_agent_node (create_agent_node a) (\<lambda>an.
       ([], Inr \<lparr>object_id = oid, contract = c, metadata = md, agent = a,
                 bound_model = bm, tools = ts, tool_node = ToolNode ts, agent_node = an\<rparr>)))"

subsection \<open>\<open>SDKPluginManager\<close>\<close>

definition SDKPluginManager_init ::
  "world \<Rightarrow> (ModelConfig \<Rightarrow> model_handle res) \<Rightarrow> SDKPluginManager res" where
  "SDKPluginManager_init w factory =
     (if \<not> SDK_AVAILABLE w then Inl (Exception ''echo-plugin-sdk is not available'')
      else Inr \<lparr>llm_factory = factory, plugin_bundles = [], plugin_contracts = [],
                healthy_plugins = {}, failed_plugins = {}, allocated = 0\<rparr>)"

text \<open>\<open>load_plugin_packages\<close>: a package whose import raises is added to the failed set.\<close>

fun load_plugin_packages_loop :: "world \<Rightarrow> string list \<Rightarrow> SDKPluginManager \<Rightarrow> SDKPluginManager" where
  "load_plugin_packages_loop w [] s = s"
| "load_plugin_packages_loop w (plugin_path # rest) s =
     (case import_module w plugin_path of
        Inr _ \<Rightarrow> load_plugin_packages_loop w rest s
      | Inl e \<Rightarrow> load_plugin_packages_loop w rest
                 (s\<lparr>failed_plugins := insert plugin_path (failed_plugins s)\<rparr>))"

definition load_plugin_packages :: "world \<Rightarrow> SDKPluginManager \<Rightarrow> SDKPluginManager" where
  "load_plugin_packages w s = load_plugin_packages_loop w (plugin_directories w) s"

text \<open>\<open>_create_model_config\<close> copies the five fields.\<close>

definition create_model_config :: "PluginMetadata \<Rightarrow> ModelConfig res" where
  "create_model_config md =
     (case get_model_config md of
        Inl e \<Rightarrow> Inl e
      | Inr mc \<Rightarrow> Inr \<lparr>provider = req_provider mc, model_name = req_model_name mc,
                       temperature = req_temperature mc, max_tokens = req_max_tokens mc,
                       additional_params = req_additional_params mc\<rparr>)"

text \<open>
  The \<open>try\<close> block of \<open>_create_plugin_bundle\<close>, up to and including the construction of
  the bundle. \<open>Inr None\<close> is one of the two \<open>return False\<close> of the validation steps,
  \<open>Inr (Some (plugin_name, bundle))\<close> is a finished bundle, \<open>Inl e\<close> an exception on its way
  to the handler.
\<close>

definition validate_structure_step ::
  "world \<Rightarrow> PluginContract \<Rightarrow> call list \<times> 'b option res \<Rightarrow> call list \<times> 'b option res" where
  "validate_structure_step w c k =
     (case validate_plugin_structure w of
        None \<Rightarrow> k
      | Some validate \<Rightarrow>
          call Call_validate_plugin_structure (validate (plugin_class c)) (\<lambda>errors.
            if errors \<noteq> [] then ([], Inr None) else k))"

definition create_plugin_bundle_try ::
  "world \<Rightarrow> (ModelConfig \<Rightarrow> model_handle res) \<Rightarrow> nat \<Rightarrow> PluginContract \<Rightarrow>
   call list \<times> (string \<times> SDKPluginBundle) option res" where
  "create_plugin_bundle_try w factory oid c =
     call Call_get_metadata (get_metadata c) (\<lambda>md.
     validate_structure_step w c (
     call Call_validate_dependencies (validate_dependencies c) (\<lambda>dep_errors.
       if dep_errors \<noteq> [] then ([], Inr None)
       else
     call Call_create_agent (create_agent c) (\<lambda>a.
     call Call_get_model_config (create_model_config md) (\<lambda>model_config.
     call Call_create_base_model (factory model_config) (\<lambda>base_model.
     call Call_get_tools (get_tools a) (\<lambda>ts.
     call Call_bind_model (bind_model a base_model) (\<lambda>bm.
     call Call_initialize (initialize a) (\<lambda>_.
     (case SDKPluginBundle_init oid c a bm ts of
        (cs, Inl e) \<Rightarrow> (cs, Inl e)
      | (cs, Inr bundle) \<Rightarrow> (cs, Inr (Some (name md, bundle)))))))))))))"

text \<open>
  \<open>_create_plugin_bundle\<close>. The handler catches every \<open>Exception\<close>, logs
  \<open>contract.name\<close> and returns \<open>False\<close>; the two validation steps return \<open>False\<close>
  themselves. Only a finished bundle changes the manager.
\<close>

definition create_plugin_bundle ::
  "world \<Rightarrow> PluginContract \<Rightarrow> SDKPluginManager \<Rightarrow> bool res \<times> SDKPluginManager" where
  "create_plugin_bundle w c s =
     (case snd (create_plugin_bundle_try w (llm_factory s) (allocated s) c) of
        Inr (Some (plugin_name, bundle)) \<Rightarrow>
          (Inr True,
           s\<lparr>plugin_bundles := AList.update plugin_name bundle (plugin_bundles s),
             plugin_contracts := AList.update plugin_name c (plugin_contracts s),
             healthy_plugins := insert plugin_name (healthy_plugins s),
             allocated := Suc (allocated s)\<rparr>)
      | Inr None \<Rightarrow> (Inr False, s)
      | Inl e \<Rightarrow> (Inr False, s))"

text \<open>
  The loop of \<open>discover_and_load_plugins\<close>, with its own handler around each call.
\<close>

fun create_bundles :: "world \<Rightarrow> PluginContract list \<Rightarrow> SDKPluginManager \<Rightarrow> SDKPluginManager" where
  "create_bundles w [] s = s"
| "create_bundles w (c # contracts) s =
     (case create_plugin_bundle w c s of
        (Inr _, s') \<Rightarrow> create_bundles w contracts s'
      | (Inl e, s') \<Rightarrow>
          create_bundles w contracts
            (s'\<lparr>failed_plugins := insert (contract_name c) (failed_plugins s')\<rparr>))"

definition discover_and_load_plugins ::
  "world \<Rightarrow> SDKPluginManager \<Rightarrow> unit res \<times> SDKPluginManager" where
  "discover_and_load_plugins w s =
     (let s1 = load_plugin_packages w s in
      case discover_plugins w of
        Inl e \<Rightarrow> (Inl e, s1)
      | Inr contracts \<Rightarrow> (Inr (), create_bundles w contracts s1))"

definition get_plugin_bundle :: "SDKPluginManager \<Rightarrow> string \<Rightarrow> SDKPluginBundle option" where
  "get_plugin_bundle s n = map_of (plugin_bundles s) n"

definition get_available_plugins :: "SDKPluginManager \<Rightarrow> string list" where
  "get_available_plugins s = map fst (plugin_bundles s)"

text \<open>\<open>perform_health_checks\<close>: one pass over \<open>plugin_contracts.items()\<close>.\<close>

definition dict_get :: "(string \<times> bool) list \<Rightarrow> string \<Rightarrow> bool \<Rightarrow> bool" where
  "dict_get d k dflt = (case map_of d k of None \<Rightarrow> dflt | Some v \<Rightarrow> v)"

fun health_checks_loop ::
  "(string \<times> PluginContract) list \<Rightarrow> (string \<times> bool) list \<Rightarrow> SDKPluginManager \<Rightarrow>
   (string \<times> bool) list \<times> SDKPluginManager" where
  "health_checks_loop [] results s = (results, s)"
| "health_checks_loop ((plugin_name, c) # rest) results s =
     (case health_check c of
        Inr health_status \<Rightarrow>
          (let is_healthy = dict_get health_status ''healthy'' False in
           health_checks_loop rest (AList.update plugin_name is_healthy results)
             (if is_healthy
              then s\<lparr>healthy_plugins := insert plugin_name (healthy_plugins s),
                     failed_plugins := failed_plugins s - {plugin_name}\<rparr>
              else s\<lparr>failed_plugins := insert plugin_name (failed_plugins s),
                     healthy_plugins := healthy_plugins s - {plugin_name}\<rparr>))
      | Inl e \<Rightarrow>
          health_checks_loop rest (AList.update plugin_name False results)
            (s\<lparr>failed_plugins := insert plugin_name (failed_plugins s)\<rparr>))"

definition perform_health_checks ::
  "SDKPluginManager \<Rightarrow> (string \<times> bool) list \<times> SDKPluginManager" where
  "perform_health_checks s = health_checks_loop (plugin_contracts s) [] s"

definition reload_plugins :: "world \<Rightarrow> SDKPluginManager \<Rightarrow> unit res \<times> SDKPluginManager" where
  "reload_plugins w s =
     (let s0 = s\<lparr>plugin_bundles := [], plugin_contracts := [],
                 healthy_plugins := {}, failed_plugins := {}\<rparr> in
      case discover_and_load_plugins w s0 of
        (Inl e, s1) \<Rightarrow> (Inl e, s1)
      | (Inr _, s1) \<Rightarrow> (Inr (), snd (perform_health_checks s1)))"

subsection \<open>\<open>get_coordinator_tools\<close> and the source text it executes\<close>

text \<open>
  \<open>make_goto_tool\<close> builds the text of a Python function from the plugin's name and
  description and runs it with \<open>exec\<close>. The text built is modelled character for
  character (\<open>func_code\<close>). What \<open>exec\<close> does with it is modelled for the texts whose
  fate is plain:
  \<^item> a text of the shape \<open>def NAME():\<close>, a docstring without quotes and backslashes inside,
    and \<open>return "LITERAL"\<close> with a literal without quotes, backslashes and newlines,
    defines the function \<open>NAME\<close>, which returns the literal;
  \<^item> a text in which the function's name is a keyword, or is followed directly by an
    operator or delimiter character that cannot open a parameter list, is a
    \<open>SyntaxError\<close>;
  \<^item> every other text (non-ASCII or control characters, quotes or backslashes in the
    description, white space or brackets in the name) is \<open>Not_covered\<close>: the model says
    nothing about it, and no statement below depends on it.
  A handle is the tool's name and what invoking it returns; the description that
  \<open>tool(...)\<close> derives from the docstring is left out.
\<close>

datatype 'a exec_outcome = Returns 'a | Raises exn | Not_covered

definition dquote :: char where "dquote = CHR 0x22"
definition newline :: char where "newline = CHR 0x0A"
definition backslash :: char where "backslash = CHR 0x5C"

definition source_char :: "char \<Rightarrow> bool" where
  "source_char c = (c = newline \<or> (32 \<le> (of_char c :: nat) \<and> (of_char c :: nat) \<le> 126))"

definition identifier_char :: "char \<Rightarrow> bool" where
  "identifier_char c =
     (c \<in> set ''abcdefghijklmnopqrstuvwxyzABCDEFGHIJKLMNOPQRSTUVWXYZ0123456789_'')"

definition operator_char :: "char \<Rightarrow> bool" where
  "operator_char c = (c \<in> set ''-+*/%&|^~<>=!.,:;)]{}@'')"

definition python_keywords :: "string list" where
  "python_keywords =
     [''False'', ''None'', ''True'', ''and'', ''as'', ''assert'', ''async'', ''await'',
      ''break'', ''class'', ''continue'', ''def'', ''del'', ''elif'', ''else'', ''except'',
      ''finally'', ''for'', ''from'', ''global'', ''if'', ''import'', ''in'', ''is'',
      ''lambda'', ''nonlocal'', ''not'', ''or'', ''pass'', ''raise'', ''return'', ''try'',
      ''while'', ''with'', ''yield'']"

definition starts_identifier :: "string \<Rightarrow> bool" where
  "starts_identifier ident =
     (case ident of [] \<Rightarrow> False | c # _ \<Rightarrow> c \<notin> set ''0123456789'')"

fun strip_prefix :: "string \<Rightarrow> string \<Rightarrow> string option" where
  "strip_prefix [] t = Some t"
| "strip_prefix (p # ps) [] = None"
| "strip_prefix (p # ps) (c # t) = (if p = c then strip_prefix ps t else None)"

record pyfunction =
  fn_name :: string
  fn_returns :: string

definition plain_char :: "char \<Rightarrow> bool" where
  "plain_char c = (c \<noteq> dquote \<and> c \<noteq> backslash)"

definition exec_body :: "string \<Rightarrow> string \<Rightarrow> (string \<times> pyfunction) list exec_outcome" where
  "exec_body ident t =
     (case strip_prefix (''    '' @ [dquote, dquote, dquote]) t of
        None \<Rightarrow> Not_covered
      | Some t1 \<Rightarrow>
          (case strip_prefix ([dquote, dquote, dquote, newline] @ ''    return '' @ [dquote])
                  (dropWhile plain_char t1) of
             None \<Rightarrow> Not_covered
           | Some t2 \<Rightarrow>
               (let lit = takeWhile (\<lambda>c. plain_char c \<and> c \<noteq> newline) t2 in
                if dropWhile (\<lambda>c. plain_char c \<and> c \<noteq> newline) t2 = [dquote, newline]
                then Returns [(ident, \<lparr>fn_name = ident, fn_returns = lit\<rparr>)]
                else Not_covered)))"

definition py_exec :: "string \<Rightarrow> (string \<times> pyfunction) list exec_outcome" where
  "py_exec func_code =
     (if \<not> list_all source_char func_code then Not_covered
      else
        case strip_prefix (newline # ''def '') func_code of
          None \<Rightarrow> Not_covered
        | Some t \<Rightarrow>
            (let ident = takeWhile identifier_char t; rest = dropWhile identifier_char t in
             if \<not> starts_identifier ident then Not_covered
             else if ident \<in> set python_keywords then Raises SyntaxError
             else
               case strip_prefix (''():'' @ [newline]) rest of
                 Some body \<Rightarrow> exec_body ident body
               | None \<Rightarrow>
                   (case rest of
                      [] \<Rightarrow> Not_covered
                    | c # _ \<Rightarrow> if operator_char c then Raises SyntaxError else Not_covered)))"

record routing_tool =
  tool_name :: string
  tool_result :: string

definition tool_decorator :: "pyfunction \<Rightarrow> routing_tool" where
  "tool_decorator f = \<lparr>tool_name = fn_name f, tool_result = fn_returns f\<rparr>"

definition invoke :: "routing_tool \<Rightarrow> string" where
  "invoke t = tool_result t"

definition func_code :: "string \<Rightarrow> string \<Rightarrow> string" where
  "func_code nm desc =
     [newline] @ ''def goto_'' @ nm @ ''():'' @ [newline] @
     ''    '' @ [dquote, dquote, dquote] @ ''Route to '' @ nm @ '' plugin for '' @ desc @
        [dquote, dquote, dquote, newline] @
     ''    return '' @ [dquote] @ nm @ [dquote, newline]"

definition make_goto_tool :: "string \<Rightarrow> string \<Rightarrow> routing_tool exec_outcome" where
  "make_goto_tool nm desc =
     (let func_name = ''goto_'' @ nm in
      case py_exec (func_code nm desc) of
        Not_covered \<Rightarrow> Not_covered
      | Raises e \<Rightarrow> Raises e
      | Returns local_vars \<Rightarrow>
          (case map_of local_vars func_name of
             None \<Rightarrow> Raises (KeyError func_name)
           | Some f \<Rightarrow> Returns (tool_decorator f)))"

fun goto_tools ::
  "(string \<times> PluginContract) list \<Rightarrow> string list \<Rightarrow> routing_tool list exec_outcome" where
  "goto_tools contracts [] = Returns []"
| "goto_tools contracts (plugin_name # rest) =
     (case map_of contracts plugin_name of
        None \<Rightarrow> Raises (KeyError plugin_name)
      | Some c \<Rightarrow>
          (case get_metadata c of
             Inl e \<Rightarrow> Raises e
           | Inr md \<Rightarrow>
               (case make_goto_tool plugin_name (description md) of
                  Not_covered \<Rightarrow> Not_covered
                | Raises e \<Rightarrow> Raises e
                | Returns t \<Rightarrow>
                    (case goto_tools contracts rest of
                       Not_covered \<Rightarrow> Not_covered
                     | Raises e \<Rightarrow> Raises e
                     | Returns control_tools \<Rightarrow> Returns (t # control_tools)))))"

definition finalize :: routing_tool where
  "finalize = \<lparr>tool_name = ''finalize'', tool_result = ''final''\<rparr>"

definition get_coordinator_tools :: "SDKPluginManager \<Rightarrow> routing_tool list exec_outcome" where
  "get_coordinator_tools s =
     (case goto_tools (plugin_contracts s) (get_available_plugins s) of
        Not_covered \<Rightarrow> Not_covered
      | Raises e \<Rightarrow> Raises e
      | Returns control_tools \<Rightarrow> Returns (control_tools @ [finalize]))"

section \<open>Notions used in the statements\<close>

text \<open>
  The name a contract is registered under is \<open>metadata.name\<close>; when \<open>get_metadata()\<close>
  raises, the only name the module still has for the plugin is \<open>contract.name\<close>.
\<close>

definition plugin_name_of :: "PluginContract \<Rightarrow> string" where
  "plugin_name_of c = (case get_metadata c of Inr md \<Rightarrow> name md | Inl e \<Rightarrow> contract_name c)"

text \<open>The bundle the \<open>try\<close> block builds for a contract, if it builds one.\<close>

definition built_bundle ::
  "world \<Rightarrow> (ModelConfig \<Rightarrow> model_handle res) \<Rightarrow> nat \<Rightarrow> PluginContract \<Rightarrow> SDKPluginBundle option" where
  "built_bundle w factory oid c =
     (case snd (create_plugin_bundle_try w factory oid c) of
        Inr (Some (n, b)) \<Rightarrow> Some b
      | _ \<Rightarrow> None)"

definition constructs :: "world \<Rightarrow> (ModelConfig \<Rightarrow> model_handle res) \<Rightarrow> PluginContract \<Rightarrow> bool" where
  "constructs w factory c = (built_bundle w factory 0 c \<noteq> None)"

text \<open>A validation step that returns a non-empty list of errors.\<close>

definition structural_errors :: "world \<Rightarrow> PluginContract \<Rightarrow> bool" where
  "structural_errors w c =
     (case validate_plugin_structure w of
        None \<Rightarrow> False
      | Some validate \<Rightarrow>
          (case validate (plugin_class c) of Inr errors \<Rightarrow> errors \<noteq> [] | Inl e \<Rightarrow> False))"

definition dependency_errors :: "PluginContract \<Rightarrow> bool" where
  "dependency_errors c =
     (case validate_dependencies c of Inr dep_errors \<Rightarrow> dep_errors \<noteq> [] | Inl e \<Rightarrow> False)"

text \<open>
  The phases of a construction, and what it means that a contract fails one of them:
  the phase's call returns errors or raises. The phases after instantiation are calls on
  the agent that \<open>create_agent()\<close> returns.
\<close>

datatype phase =
    Structural_validation
  | Dependency_validation
  | Instantiation
  | Model_binding
  | Tool_collection
  | Initialization

fun fails_at ::
  "world \<Rightarrow> (ModelConfig \<Rightarrow> model_handle res) \<Rightarrow> PluginContract \<Rightarrow> phase \<Rightarrow> bool" where
  "fails_at w factory c Structural_validation =
     (case validate_plugin_structure w of
        None \<Rightarrow> False
      | Some validate \<Rightarrow> validate (plugin_class c) \<noteq> Inr [])"
| "fails_at w factory c Dependency_validation = (validate_dependencies c \<noteq> Inr [])"
| "fails_at w factory c Instantiation = isl (create_agent c)"
| "fails_at w factory c Model_binding =
     (case get_metadata c of
        Inl e \<Rightarrow> False
      | Inr md \<Rightarrow>
          (case create_model_config md of
             Inl e \<Rightarrow> True
           | Inr model_config \<Rightarrow>
               (case factory model_config of
                  Inl e \<Rightarrow> True
                | Inr base_model \<Rightarrow>
                    (case create_agent c of
                       Inl e \<Rightarrow> False
                     | Inr a \<Rightarrow> isl (bind_model a base_model)))))"
| "fails_at w factory c Tool_collection =
     (case create_agent c of Inl e \<Rightarrow> False | Inr a \<Rightarrow> isl (get_tools a))"
| "fails_at w factory c Initialization =
     (case create_agent c of Inl e \<Rightarrow> False | Inr a \<Rightarrow> isl (initialize a))"

text \<open>
  Names and descriptions for which the text built by \<open>make_goto_tool\<close> is a function
  definition: the name consists of identifier characters, the description of printable
  characters and newlines without double quotes and backslashes.
\<close>

definition plain_text :: "string \<Rightarrow> bool" where
  "plain_text desc = list_all (\<lambda>c. source_char c \<and> plain_char c) desc"

definition plain_plugin :: "(string \<times> PluginContract) list \<Rightarrow> string \<Rightarrow> bool" where
  "plain_plugin contracts n =
     (list_all identifier_char n \<and>
      (case map_of contracts n of
         None \<Rightarrow> False
       | Some c \<Rightarrow>
           (case get_metadata c of Inl e \<Rightarrow> False | Inr md \<Rightarrow> plain_text (description md))))"

definition goto_handle :: "string \<Rightarrow> routing_tool" where
  "goto_handle n = \<lparr>tool_name = ''goto_'' @ n, tool_result = n\<rparr>"

text \<open>\<open>happens_before x y cs\<close>: the log \<open>cs\<close> has a call \<open>y\<close> after its first call \<open>x\<close>.\<close>

definition happens_before :: "call \<Rightarrow> call \<Rightarrow> call list \<Rightarrow> bool" where
  "happens_before x y cs = (y \<in> set (dropWhile (\<lambda>z. z \<noteq> x) cs))"

text \<open>Every bundle of the manager is an object that has been allocated.\<close>

definition bundle_ids_allocated :: "SDKPluginManager \<Rightarrow> bool" where
  "bundle_ids_allocated s = (\<forall>b \<in> snd ` set (plugin_bundles s). object_id b < allocated s)"

text \<open>
  What every manager state reached from \<open>__init__\<close> satisfies: the keys of
  \<open>plugin_bundles\<close> are distinct and its bundles are allocated objects.
\<close>

definition dictionaries_wellformed :: "SDKPluginManager \<Rightarrow> bool" where
  "dictionaries_wellformed s \<longleftrightarrow>
     distinct (get_available_plugins s) \<and> bundle_ids_allocated s"

text \<open>
  \<open>made_by_pass w f cs k s\<close>: every entry of the two dictionaries of \<open>s\<close> comes from a
  contract of \<open>cs\<close> that constructs, every bundle is an object allocated at or after
  serial number \<open>k\<close>, and every healthy name is a registered one.
\<close>

definition made_by_pass ::
  "world \<Rightarrow> (ModelConfig \<Rightarrow> model_handle res) \<Rightarrow> PluginContract list \<Rightarrow> nat \<Rightarrow>
   SDKPluginManager \<Rightarrow> bool" where
  "made_by_pass w f cs k s \<longleftrightarrow>
     (\<forall>(n, b) \<in> set (plugin_bundles s).
        contract b \<in> set cs \<and> n = plugin_name_of (contract b) \<and>
        built_bundle w f (object_id b) (contract b) = Some b \<and>
        k \<le> object_id b \<and> object_id b < allocated s) \<and>
     (\<forall>(n, c) \<in> set (plugin_contracts s).
        c \<in> set cs \<and> n = plugin_name_of c \<and> constructs w f c) \<and>
     healthy_plugins s \<subseteq> fst ` set (plugin_contracts s) \<and>
     k \<le> allocated s"

section \<open>Example plugins\<close>

definition example_requirements :: model_requirements where
  "example_requirements =
     \<lparr>req_provider = ''openai'', req_model_name = ''gpt'', req_temperature = 0,
      req_max_tokens = 1024, req_additional_params = []\<rparr>"

definition example_metadata :: "string \<Rightarrow> PluginMetadata" where
  "example_metadata n =
     \<lparr>name = n, version = ''1.0'', description = ''handles '' @ n,
      capabilities = [n], get_model_config = Inr example_requirements\<rparr>"

definition example_agent :: PluginAgent where
  "example_agent =
     \<lparr>get_tools = Inr [Tool ''lookup''], bind_model = (\<lambda>h. Inr (''bound '' @ h)),
      initialize = Inr (), create_agent_node = Inr ''agent node''\<rparr>"

definition example_contract :: "string \<Rightarrow> PluginContract" where
  "example_contract n =
     \<lparr>contract_name = n, plugin_class = n @ ''Plugin'',
      get_metadata = Inr (example_metadata n), validate_dependencies = Inr [],
      create_agent = Inr example_agent, health_check = Inr [(''healthy'', True)]\<rparr>"

definition example_factory :: "ModelConfig \<Rightarrow> model_handle res" where
  "example_factory cfg = Inr (model_name cfg)"

definition example_world :: "PluginContract list \<Rightarrow> world" where
  "example_world cs =
     \<lparr>SDK_AVAILABLE = True, validate_plugin_structure = Some (\<lambda>cls. Inr []),
      plugin_directories = [], import_module = (\<lambda>p. Inr ()), discover_plugins = Inr cs\<rparr>"

definition example_manager :: SDKPluginManager where
  "example_manager =
     \<lparr>llm_factory = example_factory, plugin_bundles = [], plugin_contracts = [],
      healthy_plugins = {}, failed_plugins = {}, allocated = 0\<rparr>"

text \<open>A plugin whose dependency validation reports an error.\<close>

definition missing_dependency :: PluginContract where
  "missing_dependency =
     (example_contract ''billing'')\<lparr>validate_dependencies := Inr [''missing: auth-service'']\<rparr>"

text \<open>A plugin whose agent factory raises.\<close>

definition broken_factory :: PluginContract where
  "broken_factory =
     (example_contract ''search'')\<lparr>create_agent := Inl (Exception ''cannot create agent'')\<rparr>"

text \<open>A plugin that constructs and whose health check raises.\<close>

definition raising_health_check :: PluginContract where
  "raising_health_check =
     (example_contract ''billing'')\<lparr>health_check := Inl (Exception ''connection refused'')\<rparr>"

text \<open>A second plugin that calls itself \<open>billing\<close>, at version 2.0.\<close>

definition newer_billing :: PluginContract where
  "newer_billing =
     (example_contract ''billing'')
       \<lparr>get_metadata := Inr ((example_metadata ''billing'')\<lparr>version := ''2.0''\<rparr>)\<rparr>"

text \<open>
  A manager in which \<open>billing\<close> is registered: the state after one discovery pass over the
  example contract \<open>billing\<close>.
\<close>

definition billing_world :: world where
  "billing_world = example_world [example_contract ''billing'']"

definition billing_bundle :: "nat \<Rightarrow> SDKPluginBundle" where
  "billing_bundle oid =
     \<lparr>object_id = oid, contract = example_contract ''billing'',
      metadata = example_metadata ''billing'', agent = example_agent,
      bound_model = ''bound gpt'', tools = [Tool ''lookup''],
      tool_node = ToolNode [Tool ''lookup''], agent_node = ''agent node''\<rparr>"

definition billing_registered :: SDKPluginManager where
  "billing_registered =
     \<lparr>llm_factory = example_factory,
      plugin_bundles = [(''billing'', billing_bundle 0)],
      plugin_contracts = [(''billing'', example_contract ''billing'')],
      healthy_plugins = {''billing''}, failed_plugins = {}, allocated = 1\<rparr>"

text \<open>The same manager after \<open>reload_plugins()\<close> in the same world.\<close>

definition billing_reloaded :: SDKPluginManager where
  "billing_reloaded =
     \<lparr>llm_factory = example_factory,
      plugin_bundles = [(''billing'', billing_bundle 1)],
      plugin_contracts = [(''billing'', example_contract ''billing'')],
      healthy_plugins = {''billing''}, failed_plugins = {}, allocated = 2\<rparr>"

text \<open>A manager in which a plugin named \<open>my-plugin\<close> is registered.\<close>

definition hyphen_registered :: SDKPluginManager where
  "hyphen_registered =
     snd (discover_and_load_plugins (example_world [example_contract ''my-plugin'']) example_manager)"

section \<open>Evaluation\<close>

lemmas example_defs =
  example_requirements_def example_metadata_def example_agent_def example_contract_def
  example_factory_def example_world_def example_manager_def

lemmas try_defs =
  create_plugin_bundle_try_def validate_structure_step_def call_def SDKPluginBundle_init_def
  create_model_config_def

lemmas exec_defs =
  dquote_def newline_def backslash_def source_char_def identifier_char_def operator_char_def
  python_keywords_def starts_identifier_def plain_char_def exec_body_def py_exec_def
  tool_decorator_def func_code_def make_goto_tool_def finalize_def get_coordinator_tools_def
  invoke_def

lemmas run_defs =
  try_defs create_plugin_bundle_def discover_and_load_plugins_def load_plugin_packages_def
  get_available_plugins_def get_plugin_bundle_def perform_health_checks_def reload_plugins_def
  dict_get_def

section \<open>One construction\<close>

lemma try_Some_name:
  "snd (create_plugin_bundle_try w f oid c) = Inr (Some (n, b)) \<Longrightarrow> n = plugin_name_of c"
  by (auto simp: try_defs plugin_name_of_def split: sum.splits option.splits if_splits prod.splits)

lemma built_bundle_fields:
  "built_bundle w f oid c = Some b \<Longrightarrow> object_id b = oid \<and> contract b = c"
  by (auto simp: built_bundle_def try_defs split: sum.splits option.splits if_splits prod.splits)

lemma built_bundle_oid:
  "built_bundle w f oid c = map_option (\<lambda>b. b\<lparr>object_id := oid\<rparr>) (built_bundle w f 0 c)"
  by (auto simp: built_bundle_def try_defs split: sum.splits option.splits if_splits prod.splits)

lemma built_bundle_constructs: "built_bundle w f oid c \<noteq> None \<longleftrightarrow> constructs w f c"
  unfolding constructs_def by (subst built_bundle_oid) simp

lemma create_plugin_bundle_eq:
  "create_plugin_bundle w c s =
     (case built_bundle w (llm_factory s) (allocated s) c of
        Some b \<Rightarrow>
          (Inr True,
           s\<lparr>plugin_bundles := AList.update (plugin_name_of c) b (plugin_bundles s),
             plugin_contracts := AList.update (plugin_name_of c) c (plugin_contracts s),
             healthy_plugins := insert (plugin_name_of c) (healthy_plugins s),
             allocated := Suc (allocated s)\<rparr>)
      | None \<Rightarrow> (Inr False, s))"
  by (auto simp: create_plugin_bundle_def built_bundle_def dest: try_Some_name
      split: sum.splits option.splits)

text \<open>
  The handler of \<open>_create_plugin_bundle\<close> catches everything, so the handler around its
  call in \<open>discover_and_load_plugins\<close> is never entered.
\<close>

lemma create_plugin_bundle_never_raises: "fst (create_plugin_bundle w c s) \<noteq> Inl e"
  by (cases "built_bundle w (llm_factory s) (allocated s) c")
     (simp_all add: create_plugin_bundle_eq)

section \<open>The failed set after a discovery pass\<close>

text \<open>
  C1. The claim: a discovered contract whose construction fails (validation errors or an
  exception in a phase) has its name in \<open>failed_plugins\<close> after the pass. The code: a
  pass over one contract whose \<open>validate_dependencies()\<close> returns
  \<open>["missing: auth-service"]\<close> and one whose \<open>create_agent()\<close> raises returns normally,
  registers nothing and leaves \<open>failed_plugins\<close> empty.
\<close>

theorem failed_construction_not_recorded:
  "discover_and_load_plugins (example_world [missing_dependency, broken_factory]) example_manager
     = (Inr (), example_manager)
   \<and> dependency_errors missing_dependency
   \<and> fails_at (example_world []) example_factory broken_factory Instantiation
   \<and> ''billing'' \<notin> failed_plugins example_manager
   \<and> ''search'' \<notin> failed_plugins example_manager"
  by (simp add: run_defs example_defs missing_dependency_def broken_factory_def
      dependency_errors_def)

section \<open>The two health sets\<close>

text \<open>
  C2. The claim: no name is ever in \<open>healthy_plugins\<close> and in \<open>failed_plugins\<close> at once, also
  after a health check that raises. The code: a plugin that constructs is put into
  \<open>healthy_plugins\<close>; when its \<open>health_check()\<close> raises, the handler adds the name to
  \<open>failed_plugins\<close> and does not take it out of \<open>healthy_plugins\<close>.
\<close>

theorem raising_health_check_in_both_sets:
  "(let s1 = snd (discover_and_load_plugins (example_world [raising_health_check]) example_manager);
        (results, s2) = perform_health_checks s1
    in results = [(''billing'', False)]
       \<and> ''billing'' \<in> healthy_plugins s2 \<and> ''billing'' \<in> failed_plugins s2
       \<and> healthy_plugins s2 \<inter> failed_plugins s2 = {''billing''})"
  by (simp add: run_defs example_defs raising_health_check_def)

section \<open>The iterations of a discovery pass\<close>

lemma load_loop_fields:
  "llm_factory (load_plugin_packages_loop w ps s) = llm_factory s \<and>
   plugin_bundles (load_plugin_packages_loop w ps s) = plugin_bundles s \<and>
   plugin_contracts (load_plugin_packages_loop w ps s) = plugin_contracts s \<and>
   healthy_plugins (load_plugin_packages_loop w ps s) = healthy_plugins s \<and>
   allocated (load_plugin_packages_loop w ps s) = allocated s"
  by (induction ps arbitrary: s) (auto split: sum.splits)

lemma load_loop_failed:
  "failed_plugins (load_plugin_packages_loop w ps s) =
     failed_plugins s \<union> {p \<in> set ps. isl (import_module w p)}"
  by (induction ps arbitrary: s) (auto split: sum.splits)

lemma create_bundles_Cons:
  "create_bundles w (c # cs) s = create_bundles w cs (snd (create_plugin_bundle w c s))"
proof (cases "create_plugin_bundle w c s")
  case (Pair r s')
  then show ?thesis
    using create_plugin_bundle_never_raises [of w c s] by (cases r) auto
qed

lemma create_bundles_append:
  "create_bundles w (xs @ ys) s = create_bundles w ys (create_bundles w xs s)"
  by (induction xs arbitrary: s) (simp_all only: create_bundles_Cons create_bundles.simps append.simps)

lemma step_constructs:
  "constructs w (llm_factory s) c \<Longrightarrow>
   \<exists>b. built_bundle w (llm_factory s) (allocated s) c = Some b \<and>
       snd (create_plugin_bundle w c s) =
         s\<lparr>plugin_bundles := AList.update (plugin_name_of c) b (plugin_bundles s),
           plugin_contracts := AList.update (plugin_name_of c) c (plugin_contracts s),
           healthy_plugins := insert (plugin_name_of c) (healthy_plugins s),
           allocated := Suc (allocated s)\<rparr>"
  using built_bundle_constructs [of w "llm_factory s" "allocated s" c]
  by (auto simp: create_plugin_bundle_eq)

lemma step_fails:
  "\<not> constructs w (llm_factory s) c \<Longrightarrow> create_plugin_bundle w c s = (Inr False, s)"
  using built_bundle_constructs [of w "llm_factory s" "allocated s" c]
  by (auto simp: create_plugin_bundle_eq)

lemma step_factory: "llm_factory (snd (create_plugin_bundle w c s)) = llm_factory s"
  by (cases "constructs w (llm_factory s) c") (auto dest: step_constructs step_fails)

lemma step_failed: "failed_plugins (snd (create_plugin_bundle w c s)) = failed_plugins s"
  by (cases "constructs w (llm_factory s) c") (auto dest: step_constructs step_fails)

lemma step_keys:
  "fst ` set (plugin_bundles (snd (create_plugin_bundle w c s))) =
     fst ` set (plugin_bundles s) \<union> (if constructs w (llm_factory s) c then {plugin_name_of c} else {})"
proof (cases "constructs w (llm_factory s) c")
  case True
  from step_constructs [OF True] obtain b where
    "snd (create_plugin_bundle w c s) =
         s\<lparr>plugin_bundles := AList.update (plugin_name_of c) b (plugin_bundles s),
           plugin_contracts := AList.update (plugin_name_of c) c (plugin_contracts s),
           healthy_plugins := insert (plugin_name_of c) (healthy_plugins s),
           allocated := Suc (allocated s)\<rparr>" by blast
  then show ?thesis using True by (simp add: dom_update)
next
  case False
  then show ?thesis by (simp add: step_fails)
qed

lemma create_bundles_factory: "llm_factory (create_bundles w cs s) = llm_factory s"
  by (induction cs arbitrary: s) (simp_all only: create_bundles_Cons create_bundles.simps step_factory)

lemma create_bundles_failed: "failed_plugins (create_bundles w cs s) = failed_plugins s"
  by (induction cs arbitrary: s) (simp_all only: create_bundles_Cons create_bundles.simps step_failed)

lemma create_bundles_keys:
  "fst ` set (plugin_bundles (create_bundles w cs s)) =
     fst ` set (plugin_bundles s) \<union> plugin_name_of ` {c \<in> set cs. constructs w (llm_factory s) c}"
proof (induction cs arbitrary: s)
  case Nil
  then show ?case by simp
next
  case (Cons c cs)
  show ?case
    unfolding create_bundles_Cons Cons.IH step_factory step_keys by auto
qed

lemma discover_and_load_eq:
  "discover_plugins w = Inr cs \<Longrightarrow>
   discover_and_load_plugins w s = (Inr (), create_bundles w cs (load_plugin_packages w s))"
  by (simp add: discover_and_load_plugins_def)

lemma load_fields:
  "llm_factory (load_plugin_packages w s) = llm_factory s"
  "plugin_bundles (load_plugin_packages w s) = plugin_bundles s"
  "plugin_contracts (load_plugin_packages w s) = plugin_contracts s"
  "healthy_plugins (load_plugin_packages w s) = healthy_plugins s"
  "allocated (load_plugin_packages w s) = allocated s"
  by (simp_all add: load_plugin_packages_def load_loop_fields)

lemma fails_at_not_constructs: "fails_at w f c ph \<Longrightarrow> \<not> constructs w f c"
  by (cases ph)
     (auto simp: constructs_def built_bundle_def try_defs
       split: sum.splits option.splits if_splits prod.splits)

lemma validation_errors_not_constructs:
  "structural_errors w c \<or> dependency_errors c \<Longrightarrow> \<not> constructs w f c"
  by (auto simp: structural_errors_def dependency_errors_def constructs_def built_bundle_def try_defs
       split: sum.splits option.splits if_splits prod.splits)

section \<open>Construction failures\<close>

text \<open>
  C10. Construction is atomic on failure: for a contract that fails at any phase
  (structural validation, dependency validation, instantiation, model binding, tool
  collection or initialization), \<open>_create_plugin_bundle\<close> returns \<open>False\<close> and leaves
  \<open>plugin_bundles\<close>, \<open>plugin_contracts\<close>, \<open>healthy_plugins\<close> and \<open>failed_plugins\<close> as they
  were before the call.
\<close>

theorem failed_construction_is_atomic:
  "fails_at w (llm_factory s) c ph \<Longrightarrow>
     fst (create_plugin_bundle w c s) = Inr False \<and>
     plugin_bundles (snd (create_plugin_bundle w c s)) = plugin_bundles s \<and>
     plugin_contracts (snd (create_plugin_bundle w c s)) = plugin_contracts s \<and>
     healthy_plugins (snd (create_plugin_bundle w c s)) = healthy_plugins s \<and>
     failed_plugins (snd (create_plugin_bundle w c s)) = failed_plugins s"
  by (simp add: step_fails fails_at_not_constructs)

theorem failed_construction_is_atomic_witness:
  "fails_at (example_world []) (llm_factory example_manager) missing_dependency Dependency_validation \<and>
   fst (create_plugin_bundle (example_world []) missing_dependency example_manager) = Inr False \<and>
   plugin_bundles (snd (create_plugin_bundle (example_world []) missing_dependency example_manager)) = []"
proof -
  have h: "fails_at (example_world []) (llm_factory example_manager) missing_dependency Dependency_validation"
    by (simp add: missing_dependency_def example_defs)
  have e: "plugin_bundles example_manager = []"
    by (simp add: example_manager_def)
  from failed_construction_is_atomic [OF h] e h show ?thesis by simp
qed

text \<open>
  C4, as stated: the name of a contract that fails structural or dependency validation
  never appears in \<open>get_available_plugins()\<close> after the pass. It does when another contract
  of the pass declares the same name and constructs: bundles are keyed by name, not by
  contract.
\<close>

theorem same_name_still_available:
  "dependency_errors missing_dependency \<and>
   plugin_name_of missing_dependency = ''billing'' \<and>
   ''billing'' \<in> set (get_available_plugins (snd (discover_and_load_plugins
       (example_world [example_contract ''billing'', missing_dependency]) example_manager)))"
  by (simp add: run_defs example_defs missing_dependency_def dependency_errors_def plugin_name_of_def)

text \<open>
  C4, amended: the name of a discovered contract that returns structural or dependency
  validation errors does not appear in \<open>get_available_plugins()\<close> after the pass,
  provided the name was not registered before the pass and no other contract of the pass
  with the same name constructs successfully.
\<close>

theorem failed_validation_not_available:
  assumes "discover_plugins w = Inr cs" and "c \<in> set cs"
    and "structural_errors w c \<or> dependency_errors c"
    and "plugin_name_of c \<notin> set (get_available_plugins s)"
    and "\<forall>d \<in> set cs. d \<noteq> c \<longrightarrow> plugin_name_of d = plugin_name_of c \<longrightarrow>
           \<not> constructs w (llm_factory s) d"
  shows "plugin_name_of c \<notin> set (get_available_plugins (snd (discover_and_load_plugins w s)))"
proof -
  from assms(3) have nc: "\<not> constructs w (llm_factory s) c"
    by (rule validation_errors_not_constructs)
  with assms(5) have "\<forall>d \<in> set cs. constructs w (llm_factory s) d \<longrightarrow> plugin_name_of d \<noteq> plugin_name_of c"
    by metis
  then have "plugin_name_of c \<notin> plugin_name_of ` {d \<in> set cs. constructs w (llm_factory s) d}"
    by auto
  with assms(4) show ?thesis
    by (simp add: discover_and_load_eq [OF assms(1)] get_available_plugins_def
        create_bundles_keys load_fields)
qed

theorem failed_validation_not_available_witness:
  "dependency_errors missing_dependency \<and>
   ''billing'' \<notin> set (get_available_plugins (snd (discover_and_load_plugins
       (example_world [example_contract ''search'', missing_dependency]) example_manager)))"
proof -
  let ?w = "example_world [example_contract ''search'', missing_dependency]"
  have 1: "discover_plugins ?w = Inr [example_contract ''search'', missing_dependency]"
    by (simp add: example_world_def)
  have 2: "missing_dependency \<in> set [example_contract ''search'', missing_dependency]" by simp
  have 3: "dependency_errors missing_dependency"
    by (simp add: dependency_errors_def missing_dependency_def)
  have n: "plugin_name_of missing_dependency = ''billing''"
    by (simp add: plugin_name_of_def missing_dependency_def example_defs)
  have 4: "plugin_name_of missing_dependency \<notin> set (get_available_plugins example_manager)"
    by (simp add: get_available_plugins_def example_manager_def)
  have 5: "\<forall>d \<in> set [example_contract ''search'', missing_dependency]. d \<noteq> missing_dependency \<longrightarrow>
      plugin_name_of d = plugin_name_of missing_dependency \<longrightarrow> \<not> constructs ?w (llm_factory example_manager) d"
    by (simp add: n) (simp add: plugin_name_of_def example_defs)
  from failed_validation_not_available [OF 1 2 disjI2 [OF 3] 4 5] 3 n show ?thesis by simp
qed

text \<open>
  C8. Failure isolation: a contract \<open>b\<close> of the pass that constructs on its own is
  constructed and registered whatever the contracts before and after it do (nothing is
  assumed about them: they may return validation errors or raise in any phase), and the
  pass itself returns normally.
\<close>

theorem failure_isolation:
  assumes "discover_plugins w = Inr (xs @ b # ys)" and "constructs w (llm_factory s) b"
  shows "fst (discover_and_load_plugins w s) = Inr () \<and>
         fst (create_plugin_bundle w b (create_bundles w xs (load_plugin_packages w s))) = Inr True \<and>
         plugin_name_of b \<in> set (get_available_plugins (snd (discover_and_load_plugins w s)))"
proof -
  let ?s1 = "create_bundles w xs (load_plugin_packages w s)"
  have f: "llm_factory ?s1 = llm_factory s"
    by (simp add: create_bundles_factory load_fields)
  with assms(2) have "constructs w (llm_factory ?s1) b" by simp
  then have "built_bundle w (llm_factory ?s1) (allocated ?s1) b \<noteq> None"
    by (simp only: built_bundle_constructs)
  then have t: "fst (create_plugin_bundle w b ?s1) = Inr True"
    by (auto simp: create_plugin_bundle_eq)
  have "plugin_name_of b \<in> plugin_name_of ` {c \<in> set (xs @ b # ys). constructs w (llm_factory s) c}"
    using assms(2) by auto
  then show ?thesis using t
    by (simp add: discover_and_load_eq [OF assms(1)] get_available_plugins_def
        create_bundles_keys load_fields)
qed

theorem failure_isolation_witness:
  "fst (discover_and_load_plugins
         (example_world [missing_dependency, example_contract ''search'', broken_factory]) example_manager) = Inr () \<and>
   ''search'' \<in> set (get_available_plugins (snd (discover_and_load_plugins
         (example_world [missing_dependency, example_contract ''search'', broken_factory]) example_manager)))"
proof -
  let ?w = "example_world [missing_dependency, example_contract ''search'', broken_factory]"
  have 1: "discover_plugins ?w = Inr ([missing_dependency] @ example_contract ''search'' # [broken_factory])"
    by (simp add: example_world_def)
  have 2: "constructs ?w (llm_factory example_manager) (example_contract ''search'')"
    by (simp add: constructs_def built_bundle_def try_defs example_defs)
  have n: "plugin_name_of (example_contract ''search'') = ''search''"
    by (simp add: plugin_name_of_def example_defs)
  from failure_isolation [OF 1 2] n show ?thesis by simp
qed

section \<open>The order of the construction phases\<close>

text \<open>
  C5, as stated: in a successful construction model binding, \<open>agent.bind_model\<close> included,
  happens before tool collection (\<open>agent.get_tools\<close>). In the code \<open>get_tools()\<close> is called
  first and \<open>bind_model(base_model)\<close> after it.
\<close>

theorem get_tools_before_bind_model:
  "constructs (example_world []) example_factory (example_contract ''billing'') \<and>
   \<not> happens_before Call_bind_model Call_get_tools
       (fst (create_plugin_bundle_try (example_world []) example_factory 0 (example_contract ''billing''))) \<and>
   happens_before Call_get_tools Call_bind_model
       (fst (create_plugin_bundle_try (example_world []) example_factory 0 (example_contract ''billing'')))"
  by (simp add: constructs_def built_bundle_def try_defs example_defs happens_before_def)

text \<open>
  C5, amended: in every successful construction the calls are, in this order: metadata,
  structural validation (when a validator is there), dependency validation, agent
  instantiation, resolving the model configuration, creating the base model,
  \<open>agent.get_tools\<close>, \<open>agent.bind_model\<close>, \<open>agent.initialize\<close>, and then the bundle's
  constructor (metadata again, \<open>agent.create_agent_node\<close>). Tool collection comes before
  \<open>bind_model\<close>; both come before initialization.
\<close>

theorem construction_call_order:
  "built_bundle w f oid c = Some b \<Longrightarrow>
   fst (create_plugin_bundle_try w f oid c) =
     Call_get_metadata #
     (case validate_plugin_structure w of None \<Rightarrow> [] | Some validate \<Rightarrow> [Call_validate_plugin_structure]) @
     [Call_validate_dependencies, Call_create_agent, Call_get_model_config, Call_create_base_model,
      Call_get_tools, Call_bind_model, Call_initialize, Call_get_metadata, Call_create_agent_node]"
  by (auto simp: built_bundle_def try_defs split: sum.splits option.splits if_splits prod.splits)

theorem construction_call_order_witness:
  "built_bundle (example_world []) example_factory 0 (example_contract ''billing'') \<noteq> None \<and>
   fst (create_plugin_bundle_try (example_world []) example_factory 0 (example_contract ''billing'')) =
     [Call_get_metadata, Call_validate_plugin_structure,
      Call_validate_dependencies, Call_create_agent, Call_get_model_config, Call_create_base_model,
      Call_get_tools, Call_bind_model, Call_initialize, Call_get_metadata, Call_create_agent_node]"
proof -
  obtain b where h: "built_bundle (example_world []) example_factory 0 (example_contract ''billing'') = Some b"
    by (simp add: built_bundle_def try_defs example_defs)
  have v: "validate_plugin_structure (example_world []) = Some (\<lambda>cls. Inr [])"
    by (simp add: example_world_def)
  from construction_call_order [OF h] h v show ?thesis by simp
qed

section \<open>Duplicate names\<close>

lemma billing_registered_eq:
  "snd (discover_and_load_plugins billing_world example_manager) = billing_registered"
  by (simp add: run_defs example_defs billing_world_def billing_registered_def billing_bundle_def)

lemma update_present_keys: "k \<in> fst ` set al \<Longrightarrow> map fst (AList.update k v al) = map fst al"
  by (simp add: update_keys)

lemma built_bundle_metadata:
  "built_bundle w f oid c = Some b \<Longrightarrow> get_metadata c = Inr (metadata b)"
  by (auto simp: built_bundle_def try_defs split: sum.splits option.splits if_splits prod.splits)

lemma step_distinct:
  "distinct (map fst (plugin_bundles s)) \<Longrightarrow>
   distinct (map fst (plugin_bundles (snd (create_plugin_bundle w c s))))"
proof (cases "constructs w (llm_factory s) c")
  case True
  assume d: "distinct (map fst (plugin_bundles s))"
  from step_constructs [OF True] obtain b where
    "snd (create_plugin_bundle w c s) =
         s\<lparr>plugin_bundles := AList.update (plugin_name_of c) b (plugin_bundles s),
           plugin_contracts := AList.update (plugin_name_of c) c (plugin_contracts s),
           healthy_plugins := insert (plugin_name_of c) (healthy_plugins s),
           allocated := Suc (allocated s)\<rparr>" by blast
  then show ?thesis using d by (simp add: distinct_update)
next
  case False
  assume "distinct (map fst (plugin_bundles s))"
  then show ?thesis using False by (simp add: step_fails)
qed

lemma create_bundles_distinct:
  "distinct (map fst (plugin_bundles s)) \<Longrightarrow>
   distinct (map fst (plugin_bundles (create_bundles w cs s)))"
proof (induction cs arbitrary: s)
  case Nil
  then show ?case by simp
next
  case (Cons c cs)
  show ?case unfolding create_bundles_Cons
    by (rule Cons.IH) (rule step_distinct [OF Cons.prems])
qed

lemma step_map_of_other:
  "(constructs w (llm_factory s) c \<longrightarrow> plugin_name_of c \<noteq> n) \<Longrightarrow>
   map_of (plugin_bundles (snd (create_plugin_bundle w c s))) n = map_of (plugin_bundles s) n"
proof (cases "constructs w (llm_factory s) c")
  case True
  assume h: "constructs w (llm_factory s) c \<longrightarrow> plugin_name_of c \<noteq> n"
  from step_constructs [OF True] obtain b where
    "snd (create_plugin_bundle w c s) =
         s\<lparr>plugin_bundles := AList.update (plugin_name_of c) b (plugin_bundles s),
           plugin_contracts := AList.update (plugin_name_of c) c (plugin_contracts s),
           healthy_plugins := insert (plugin_name_of c) (healthy_plugins s),
           allocated := Suc (allocated s)\<rparr>" by blast
  then show ?thesis using h True by (simp add: update_conv')
next
  case False
  then show ?thesis by (simp add: step_fails)
qed

lemma create_bundles_map_of_other:
  "\<forall>d \<in> set cs. constructs w (llm_factory s) d \<longrightarrow> plugin_name_of d \<noteq> n \<Longrightarrow>
   map_of (plugin_bundles (create_bundles w cs s)) n = map_of (plugin_bundles s) n"
proof (induction cs arbitrary: s)
  case Nil
  then show ?case by simp
next
  case (Cons c cs)
  have "map_of (plugin_bundles (create_bundles w cs (snd (create_plugin_bundle w c s)))) n
        = map_of (plugin_bundles (snd (create_plugin_bundle w c s))) n"
    using Cons.prems by (intro Cons.IH) (simp add: step_factory)
  also have "\<dots> = map_of (plugin_bundles s) n"
    using Cons.prems by (intro step_map_of_other) simp
  finally show ?case unfolding create_bundles_Cons .
qed

lemma distinct_count_list_one: "distinct xs \<Longrightarrow> x \<in> set xs \<Longrightarrow> count_list xs x = 1"
  by (induction xs) auto

text \<open>
  C7, as stated: a contract whose name is that of a registered bundle is a construction
  error and the prior bundle is not overwritten. In the code the construction returns
  \<open>True\<close> and the bundle under that name is the new one.
\<close>

theorem duplicate_name_overwrites:
  "(let w = example_world [];
        s1 = snd (create_plugin_bundle w (example_contract ''billing'') example_manager);
        (r, s2) = create_plugin_bundle w newer_billing s1
    in map_option (version \<circ> metadata) (get_plugin_bundle s1 ''billing'') = Some ''1.0''
       \<and> plugin_name_of newer_billing = ''billing''
       \<and> r = Inr True
       \<and> map_option (version \<circ> metadata) (get_plugin_bundle s2 ''billing'') = Some ''2.0''
       \<and> get_available_plugins s2 = [''billing''])"
  by (simp add: run_defs example_defs newer_billing_def plugin_name_of_def)

text \<open>
  C7, amended: a contract that constructs and whose metadata name is that of a registered
  bundle is no error: \<open>_create_plugin_bundle\<close> returns \<open>True\<close> and puts the new bundle in the
  place of the prior one. The list of registered names is unchanged by it, so names stay
  unique across the registered bundles.
\<close>

theorem duplicate_name_replaces_bundle:
  assumes "constructs w (llm_factory s) c"
    and "plugin_name_of c \<in> set (get_available_plugins s)"
    and "distinct (get_available_plugins s)"
  shows "fst (create_plugin_bundle w c s) = Inr True \<and>
         (\<exists>b. get_plugin_bundle (snd (create_plugin_bundle w c s)) (plugin_name_of c) = Some b \<and>
              contract b = c \<and> object_id b = allocated s) \<and>
         get_available_plugins (snd (create_plugin_bundle w c s)) = get_available_plugins s \<and>
         distinct (get_available_plugins (snd (create_plugin_bundle w c s)))"
proof -
  from step_constructs [OF assms(1)] obtain b where
    b: "built_bundle w (llm_factory s) (allocated s) c = Some b" and
    s': "snd (create_plugin_bundle w c s) =
         s\<lparr>plugin_bundles := AList.update (plugin_name_of c) b (plugin_bundles s),
           plugin_contracts := AList.update (plugin_name_of c) c (plugin_contracts s),
           healthy_plugins := insert (plugin_name_of c) (healthy_plugins s),
           allocated := Suc (allocated s)\<rparr>" by blast
  have r: "fst (create_plugin_bundle w c s) = Inr True"
    using b by (simp add: create_plugin_bundle_eq)
  have k: "get_available_plugins (snd (create_plugin_bundle w c s)) = get_available_plugins s"
    using assms(2) by (simp add: s' get_available_plugins_def update_present_keys)
  have g: "get_plugin_bundle (snd (create_plugin_bundle w c s)) (plugin_name_of c) = Some b"
    by (simp add: s' get_plugin_bundle_def update_conv')
  from r k g built_bundle_fields [OF b] assms(3) show ?thesis by simp
qed

theorem duplicate_name_replaces_bundle_witness:
  "constructs (example_world []) (llm_factory billing_registered) newer_billing \<and>
   plugin_name_of newer_billing = ''billing'' \<and>
   get_available_plugins billing_registered = [''billing''] \<and>
   fst (create_plugin_bundle (example_world []) newer_billing billing_registered) = Inr True \<and>
   get_available_plugins (snd (create_plugin_bundle (example_world []) newer_billing billing_registered))
     = [''billing'']"
proof -
  have 1: "constructs (example_world []) (llm_factory billing_registered) newer_billing"
    by (simp add: constructs_def built_bundle_def try_defs example_defs newer_billing_def
        billing_registered_def)
  have n: "plugin_name_of newer_billing = ''billing''"
    by (simp add: plugin_name_of_def newer_billing_def example_defs)
  have a: "get_available_plugins billing_registered = [''billing'']"
    by (simp add: get_available_plugins_def billing_registered_def)
  have 2: "plugin_name_of newer_billing \<in> set (get_available_plugins billing_registered)"
    by (simp add: n a)
  have 3: "distinct (get_available_plugins billing_registered)"
    by (simp add: a)
  from duplicate_name_replaces_bundle [OF 1 2 3] 1 n a show ?thesis by simp
qed

text \<open>
  C6. Last registered wins: when two distinct contracts \<open>a\<close> and \<open>b\<close> of one pass declare
  the same name \<open>n\<close>, both construct, \<open>b\<close> is processed after \<open>a\<close> and no contract after
  \<open>b\<close> with that name constructs, then after the pass \<open>get_plugin_bundle(n)\<close> is the bundle
  built from \<open>b\<close>, and \<open>n\<close> occurs exactly once in \<open>get_available_plugins()\<close> (the
  dictionary had distinct keys before the pass, as every dictionary has).
\<close>

theorem last_registered_wins:
  assumes "discover_plugins w = Inr (xs @ a # ys @ b # zs)"
    and "a \<noteq> b"
    and "plugin_name_of a = n" and "plugin_name_of b = n"
    and "constructs w (llm_factory s) a" and "constructs w (llm_factory s) b"
    and "\<forall>d \<in> set zs. plugin_name_of d = n \<longrightarrow> \<not> constructs w (llm_factory s) d"
    and "distinct (get_available_plugins s)"
  shows "\<exists>bundle. get_plugin_bundle (snd (discover_and_load_plugins w s)) n = Some bundle \<and>
           contract bundle = b \<and> contract bundle \<noteq> a \<and>
           built_bundle w (llm_factory s) (object_id bundle) b = Some bundle \<and>
           count_list (get_available_plugins (snd (discover_and_load_plugins w s))) n = 1"
proof -
  let ?s0 = "load_plugin_packages w s"
  let ?s1 = "create_bundles w (xs @ a # ys) ?s0"
  let ?s2 = "snd (create_plugin_bundle w b ?s1)"
  let ?s3 = "create_bundles w zs ?s2"
  have split: "xs @ a # ys @ b # zs = (xs @ a # ys) @ b # zs" by simp
  have s': "snd (discover_and_load_plugins w s) = ?s3"
    unfolding discover_and_load_eq [OF assms(1)] split create_bundles_append [of w "xs @ a # ys"]
      create_bundles_Cons by simp
  have f1: "llm_factory ?s1 = llm_factory s"
    by (simp add: create_bundles_factory load_fields)
  have f2: "llm_factory ?s2 = llm_factory s"
    by (simp add: step_factory f1)
  from assms(6) f1 have "constructs w (llm_factory ?s1) b" by simp
  from step_constructs [OF this] obtain bd where
    b: "built_bundle w (llm_factory ?s1) (allocated ?s1) b = Some bd" and
    s2: "?s2 =
         ?s1\<lparr>plugin_bundles := AList.update (plugin_name_of b) bd (plugin_bundles ?s1),
           plugin_contracts := AList.update (plugin_name_of b) b (plugin_contracts ?s1),
           healthy_plugins := insert (plugin_name_of b) (healthy_plugins ?s1),
           allocated := Suc (allocated ?s1)\<rparr>" by blast
  have m2: "map_of (plugin_bundles ?s2) n = Some bd"
    by (simp add: s2 update_conv' assms(4))
  have "map_of (plugin_bundles ?s3) n = map_of (plugin_bundles ?s2) n"
    using assms(7) by (intro create_bundles_map_of_other) (auto simp: f2)
  with m2 have g: "get_plugin_bundle ?s3 n = Some bd"
    by (simp add: get_plugin_bundle_def)
  have "distinct (map fst (plugin_bundles ?s0))"
    using assms(8) by (simp add: load_fields get_available_plugins_def)
  then have d: "distinct (get_available_plugins ?s3)"
    unfolding get_available_plugins_def
    by (intro create_bundles_distinct step_distinct)
  from g have "n \<in> set (get_available_plugins ?s3)"
    by (auto simp: get_plugin_bundle_def get_available_plugins_def dest: map_of_SomeD intro: rev_image_eqI)
  with d have c: "count_list (get_available_plugins ?s3) n = 1"
    by (rule distinct_count_list_one)
  from built_bundle_fields [OF b] have fb: "object_id bd = allocated ?s1" "contract bd = b"
    by simp_all
  from b fb f1 have bb: "built_bundle w (llm_factory s) (object_id bd) b = Some bd"
    by simp
  from g fb bb c assms(2) show ?thesis
    unfolding s' by auto
qed

theorem last_registered_wins_witness:
  "map_option (version \<circ> metadata)
     (get_plugin_bundle (snd (discover_and_load_plugins
        (example_world [example_contract ''billing'', missing_dependency, newer_billing]) example_manager))
        ''billing'') = Some ''2.0'' \<and>
   count_list (get_available_plugins (snd (discover_and_load_plugins
        (example_world [example_contract ''billing'', missing_dependency, newer_billing]) example_manager)))
        ''billing'' = 1"
proof -
  let ?w = "example_world [example_contract ''billing'', missing_dependency, newer_billing]"
  have 1: "discover_plugins ?w = Inr ([] @ example_contract ''billing'' # [missing_dependency] @ newer_billing # [])"
    by (simp add: example_world_def)
  have 2: "example_contract ''billing'' \<noteq> newer_billing"
    by (simp add: newer_billing_def example_defs)
  have 3: "plugin_name_of (example_contract ''billing'') = ''billing''"
    by (simp add: plugin_name_of_def example_defs)
  have 4: "plugin_name_of newer_billing = ''billing''"
    by (simp add: plugin_name_of_def newer_billing_def example_defs)
  have 5: "constructs ?w (llm_factory example_manager) (example_contract ''billing'')"
    by (simp add: constructs_def built_bundle_def try_defs example_defs)
  have 6: "constructs ?w (llm_factory example_manager) newer_billing"
    by (simp add: constructs_def built_bundle_def try_defs example_defs newer_billing_def)
  have 7: "\<forall>d \<in> set []. plugin_name_of d = ''billing'' \<longrightarrow> \<not> constructs ?w (llm_factory example_manager) d"
    by simp
  have 8: "distinct (get_available_plugins example_manager)"
    by (simp add: get_available_plugins_def example_manager_def)
  from last_registered_wins [OF 1 2 3 4 5 6 7 8] obtain bd where
    g: "get_plugin_bundle (snd (discover_and_load_plugins ?w example_manager)) ''billing'' = Some bd"
    and c: "contract bd = newer_billing"
    and bb: "built_bundle ?w (llm_factory example_manager) (object_id bd) newer_billing = Some bd"
    and n: "count_list (get_available_plugins (snd (discover_and_load_plugins ?w example_manager))) ''billing'' = 1"
    by blast
  from built_bundle_metadata [OF bb]
  have "metadata bd = (example_metadata ''billing'')\<lparr>version := ''2.0''\<rparr>"
    by (simp add: newer_billing_def)
  then have "version (metadata bd) = ''2.0''" by simp
  with g n show ?thesis by simp
qed

section \<open>Reload\<close>

lemma set_update_subset: "set (AList.update k v al) \<subseteq> insert (k, v) (set al)"
  by (induction al) auto

lemma step_made_by_pass:
  assumes "made_by_pass w (llm_factory s) cs k s" and "c \<in> set cs"
  shows "made_by_pass w (llm_factory s) cs k (snd (create_plugin_bundle w c s))"
proof (cases "constructs w (llm_factory s) c")
  case True
  from step_constructs [OF True] obtain b where
    b: "built_bundle w (llm_factory s) (allocated s) c = Some b" and
    s': "snd (create_plugin_bundle w c s) =
         s\<lparr>plugin_bundles := AList.update (plugin_name_of c) b (plugin_bundles s),
           plugin_contracts := AList.update (plugin_name_of c) c (plugin_contracts s),
           healthy_plugins := insert (plugin_name_of c) (healthy_plugins s),
           allocated := Suc (allocated s)\<rparr>" by blast
  from built_bundle_fields [OF b] have fb: "object_id b = allocated s" "contract b = c"
    by simp_all
  have 1: "\<forall>(n, b') \<in> set (AList.update (plugin_name_of c) b (plugin_bundles s)).
        contract b' \<in> set cs \<and> n = plugin_name_of (contract b') \<and>
        built_bundle w (llm_factory s) (object_id b') (contract b') = Some b' \<and>
        k \<le> object_id b' \<and> object_id b' < Suc (allocated s)"
  proof (clarify)
    fix n b' assume "(n, b') \<in> set (AList.update (plugin_name_of c) b (plugin_bundles s))"
    with set_update_subset have "(n, b') = (plugin_name_of c, b) \<or> (n, b') \<in> set (plugin_bundles s)"
      by fastforce
    then show "contract b' \<in> set cs \<and> n = plugin_name_of (contract b') \<and>
        built_bundle w (llm_factory s) (object_id b') (contract b') = Some b' \<and>
        k \<le> object_id b' \<and> object_id b' < Suc (allocated s)"
    proof
      assume "(n, b') = (plugin_name_of c, b)"
      then show ?thesis using fb b assms by (auto simp: made_by_pass_def)
    next
      assume "(n, b') \<in> set (plugin_bundles s)"
      then show ?thesis using assms(1) by (fastforce simp: made_by_pass_def)
    qed
  qed
  have 2: "\<forall>(n, c') \<in> set (AList.update (plugin_name_of c) c (plugin_contracts s)).
        c' \<in> set cs \<and> n = plugin_name_of c' \<and> constructs w (llm_factory s) c'"
  proof (clarify)
    fix n c' assume "(n, c') \<in> set (AList.update (plugin_name_of c) c (plugin_contracts s))"
    with set_update_subset have "(n, c') = (plugin_name_of c, c) \<or> (n, c') \<in> set (plugin_contracts s)"
      by fastforce
    then show "c' \<in> set cs \<and> n = plugin_name_of c' \<and> constructs w (llm_factory s) c'"
      using assms True by (fastforce simp: made_by_pass_def)
  qed
  have 3: "insert (plugin_name_of c) (healthy_plugins s)
            \<subseteq> fst ` set (AList.update (plugin_name_of c) c (plugin_contracts s))"
    using assms(1) by (auto simp: dom_update made_by_pass_def)
  have 4: "k \<le> Suc (allocated s)"
    using assms(1) by (simp add: made_by_pass_def)
  from 1 2 3 4 show ?thesis
    unfolding made_by_pass_def s' by simp
next
  case False
  then show ?thesis using assms(1) by (simp add: step_fails)
qed

lemma create_bundles_made_by_pass:
  "made_by_pass w (llm_factory s) cs k s \<Longrightarrow> set ds \<subseteq> set cs \<Longrightarrow>
   made_by_pass w (llm_factory s) cs k (create_bundles w ds s)"
proof (induction ds arbitrary: s)
  case Nil
  then show ?case by simp
next
  case (Cons d ds)
  from Cons.prems have "made_by_pass w (llm_factory s) cs k (snd (create_plugin_bundle w d s))"
    by (intro step_made_by_pass) simp_all
  then have "made_by_pass w (llm_factory (snd (create_plugin_bundle w d s))) cs k
               (create_bundles w ds (snd (create_plugin_bundle w d s)))"
    using Cons.prems by (intro Cons.IH) (simp_all add: step_factory)
  then show ?case by (simp only: create_bundles_Cons step_factory)
qed

lemma health_loop_fields:
  "llm_factory (snd (health_checks_loop xs res s)) = llm_factory s \<and>
   plugin_bundles (snd (health_checks_loop xs res s)) = plugin_bundles s \<and>
   plugin_contracts (snd (health_checks_loop xs res s)) = plugin_contracts s \<and>
   allocated (snd (health_checks_loop xs res s)) = allocated s"
  by (induction xs res s rule: health_checks_loop.induct) (auto simp: Let_def split: sum.splits)

lemma health_loop_sets:
  "healthy_plugins (snd (health_checks_loop xs res s)) \<subseteq> healthy_plugins s \<union> fst ` set xs \<and>
   failed_plugins (snd (health_checks_loop xs res s)) \<subseteq> failed_plugins s \<union> fst ` set xs"
proof (induction xs arbitrary: res s)
  case Nil
  then show ?case by simp
next
  case (Cons x xs)
  obtain n c where x: "x = (n, c)" by (cases x)
  show ?case
  proof (cases "health_check c")
    case (Inl e)
    let ?s = "s\<lparr>failed_plugins := insert n (failed_plugins s)\<rparr>"
    have "health_checks_loop (x # xs) res s = health_checks_loop xs (AList.update n False res) ?s"
      by (simp add: x Inl)
    then show ?thesis
      using Cons.IH [of "AList.update n False res" ?s] by (auto simp: x)
  next
    case (Inr hs)
    show ?thesis
    proof (cases "dict_get hs ''healthy'' False")
      case True
      let ?s = "s\<lparr>healthy_plugins := insert n (healthy_plugins s),
                   failed_plugins := failed_plugins s - {n}\<rparr>"
      have "health_checks_loop (x # xs) res s = health_checks_loop xs (AList.update n True res) ?s"
        by (simp add: x Inr True)
      then show ?thesis
        using Cons.IH [of "AList.update n True res" ?s] by (auto simp: x)
    next
      case False
      let ?s = "s\<lparr>failed_plugins := insert n (failed_plugins s),
                   healthy_plugins := healthy_plugins s - {n}\<rparr>"
      have "health_checks_loop (x # xs) res s = health_checks_loop xs (AList.update n False res) ?s"
        by (simp add: x Inr False)
      then show ?thesis
        using Cons.IH [of "AList.update n False res" ?s] by (auto simp: x)
    qed
  qed
qed

lemma load_failed:
  "failed_plugins (load_plugin_packages w s) =
     failed_plugins s \<union> {p \<in> set (plugin_directories w). isl (import_module w p)}"
  by (simp add: load_plugin_packages_def load_loop_failed)

lemma reload_plugins_eq:
  "discover_plugins w = Inr cs \<Longrightarrow>
   reload_plugins w s =
     (Inr (), snd (perform_health_checks (create_bundles w cs (load_plugin_packages w
        (s\<lparr>plugin_bundles := [], plugin_contracts := [], healthy_plugins := {}, failed_plugins := {}\<rparr>)))))"
  by (simp add: reload_plugins_def discover_and_load_eq)

lemma reload_plugins_returns:
  "reload_plugins w s = (Inr (), s') \<Longrightarrow> \<exists>cs. discover_plugins w = Inr cs"
  by (cases "discover_plugins w")
     (auto simp: reload_plugins_def discover_and_load_plugins_def Let_def)

text \<open>
  C9. After \<open>reload_plugins()\<close> has returned, the collections hold what the new pass
  produced and nothing else: every bundle was built in this pass from a contract of this
  pass, is a new object (allocated after every object that existed before the call, so it
  is none of the earlier bundles), the registered names are exactly the names of the
  contracts of this pass that construct, every registered contract is one of them, the
  healthy names are registered names, the failed names are registered names or packages
  whose import failed in this pass, and the result does not depend on what the four
  collections held before the call.
\<close>

theorem reload_leaves_no_residue:
  assumes "reload_plugins w s = (Inr (), s')" and "bundle_ids_allocated s"
  shows "\<exists>cs. discover_plugins w = Inr cs \<and>
     (\<forall>(n, b) \<in> set (plugin_bundles s').
        contract b \<in> set cs \<and> n = plugin_name_of (contract b) \<and>
        built_bundle w (llm_factory s) (object_id b) (contract b) = Some b \<and>
        allocated s \<le> object_id b \<and> b \<notin> snd ` set (plugin_bundles s)) \<and>
     fst ` set (plugin_bundles s') = plugin_name_of ` {c \<in> set cs. constructs w (llm_factory s) c} \<and>
     (\<forall>(n, c) \<in> set (plugin_contracts s').
        c \<in> set cs \<and> n = plugin_name_of c \<and> constructs w (llm_factory s) c) \<and>
     healthy_plugins s' \<subseteq> fst ` set (plugin_contracts s') \<and>
     failed_plugins s' \<subseteq> fst ` set (plugin_contracts s') \<union>
        {p \<in> set (plugin_directories w). isl (import_module w p)} \<and>
     reload_plugins w (s\<lparr>plugin_bundles := bs, plugin_contracts := cts,
                          healthy_plugins := H, failed_plugins := F\<rparr>) = (Inr (), s')"
proof -
  from reload_plugins_returns [OF assms(1)] obtain cs where cs: "discover_plugins w = Inr cs" ..
  let ?s0 = "s\<lparr>plugin_bundles := [], plugin_contracts := [], healthy_plugins := {}, failed_plugins := {}\<rparr>"
  let ?s1 = "load_plugin_packages w ?s0"
  let ?s2 = "create_bundles w cs ?s1"
  have s': "s' = snd (perform_health_checks ?s2)"
    using assms(1) by (simp add: reload_plugins_eq [OF cs])
  have f1: "llm_factory ?s1 = llm_factory s" by (simp add: load_fields)
  have "made_by_pass w (llm_factory ?s1) cs (allocated s) ?s1"
    by (simp add: made_by_pass_def load_fields)
  then have "made_by_pass w (llm_factory ?s1) cs (allocated s) ?s2"
    by (rule create_bundles_made_by_pass) simp
  then have m: "made_by_pass w (llm_factory s) cs (allocated s) ?s2"
    by (simp only: f1)
  have pb: "plugin_bundles s' = plugin_bundles ?s2" and pc: "plugin_contracts s' = plugin_contracts ?s2"
    unfolding s' perform_health_checks_def by (simp_all add: health_loop_fields)
  have old: "\<And>b. allocated s \<le> object_id b \<Longrightarrow> b \<notin> snd ` set (plugin_bundles s)"
    using assms(2) by (auto simp: bundle_ids_allocated_def)
  have 1: "\<forall>(n, b) \<in> set (plugin_bundles s').
        contract b \<in> set cs \<and> n = plugin_name_of (contract b) \<and>
        built_bundle w (llm_factory s) (object_id b) (contract b) = Some b \<and>
        allocated s \<le> object_id b \<and> b \<notin> snd ` set (plugin_bundles s)"
    using m old unfolding pb made_by_pass_def by fast
  have 2: "fst ` set (plugin_bundles s') = plugin_name_of ` {c \<in> set cs. constructs w (llm_factory s) c}"
    unfolding pb by (simp add: create_bundles_keys load_fields)
  have 3: "\<forall>(n, c) \<in> set (plugin_contracts s').
        c \<in> set cs \<and> n = plugin_name_of c \<and> constructs w (llm_factory s) c"
    using m unfolding pc made_by_pass_def by fast
  have h2: "healthy_plugins ?s2 \<subseteq> fst ` set (plugin_contracts ?s2)"
    using m unfolding made_by_pass_def by fast
  have f2: "failed_plugins ?s2 = {p \<in> set (plugin_directories w). isl (import_module w p)}"
    by (simp add: create_bundles_failed load_failed)
  from health_loop_sets [of "plugin_contracts ?s2" "[]" ?s2] h2
  have 4: "healthy_plugins s' \<subseteq> fst ` set (plugin_contracts s')"
    unfolding pc unfolding s' perform_health_checks_def by blast
  from health_loop_sets [of "plugin_contracts ?s2" "[]" ?s2] f2
  have 5: "failed_plugins s' \<subseteq> fst ` set (plugin_contracts s') \<union>
        {p \<in> set (plugin_directories w). isl (import_module w p)}"
    unfolding pc unfolding s' perform_health_checks_def by blast
  have 6: "reload_plugins w (s\<lparr>plugin_bundles := bs, plugin_contracts := cts,
                          healthy_plugins := H, failed_plugins := F\<rparr>) = (Inr (), s')"
    using assms(1) by (simp add: reload_plugins_def)
  from cs 1 2 3 4 5 6 show ?thesis by blast
qed

theorem reload_leaves_no_residue_witness:
  "reload_plugins billing_world billing_registered = (Inr (), billing_reloaded) \<and>
   bundle_ids_allocated billing_registered \<and>
   get_plugin_bundle billing_registered ''billing'' = Some (billing_bundle 0) \<and>
   get_plugin_bundle billing_reloaded ''billing'' = Some (billing_bundle 1) \<and>
   billing_bundle 1 \<notin> snd ` set (plugin_bundles billing_registered)"
proof -
  have 1: "reload_plugins billing_world billing_registered = (Inr (), billing_reloaded)"
    by (simp add: run_defs example_defs billing_world_def billing_registered_def
        billing_reloaded_def billing_bundle_def)
  have 2: "bundle_ids_allocated billing_registered"
    by (simp add: bundle_ids_allocated_def billing_registered_def billing_bundle_def)
  have 3: "get_plugin_bundle billing_registered ''billing'' = Some (billing_bundle 0)"
    by (simp add: get_plugin_bundle_def billing_registered_def)
  have 4: "get_plugin_bundle billing_reloaded ''billing'' = Some (billing_bundle 1)"
    by (simp add: get_plugin_bundle_def billing_reloaded_def)
  have 5: "(''billing'', billing_bundle 1) \<in> set (plugin_bundles billing_reloaded)"
    by (simp add: billing_reloaded_def)
  from reload_leaves_no_residue [OF 1 2] 5
  have "billing_bundle 1 \<notin> snd ` set (plugin_bundles billing_registered)" by fast
  with 1 2 3 4 show ?thesis by simp
qed

section \<open>The coordinator's routing tools\<close>

lemma identifier_char_facts:
  "identifier_char c \<Longrightarrow> source_char c \<and> plain_char c \<and> c \<noteq> newline \<and> c \<noteq> dquote"
  by (auto simp: identifier_char_def source_char_def plain_char_def newline_def dquote_def backslash_def)

lemma strip_prefix_append: "strip_prefix p (p @ t) = Some t"
  by (induction p) simp_all

lemma open_paren_not_identifier: "\<not> identifier_char (CHR ''('')"
  by (simp add: identifier_char_def)

lemma goto_identifier: "list_all identifier_char ''goto_''"
  by (simp add: identifier_char_def)

lemma goto_not_keyword: "''goto_'' @ nm \<notin> set python_keywords"
  by (simp add: python_keywords_def)

lemma exec_body_plain:
  assumes "list_all plain_char doc" and "list_all (\<lambda>c. plain_char c \<and> c \<noteq> newline) lit"
  shows "exec_body ident (''    '' @ [dquote, dquote, dquote] @ doc @ [dquote, dquote, dquote, newline] @
            ''    return '' @ [dquote] @ lit @ [dquote, newline])
         = Returns [(ident, \<lparr>fn_name = ident, fn_returns = lit\<rparr>)]"
proof -
  have 1: "strip_prefix (''    '' @ [dquote, dquote, dquote])
            (''    '' @ [dquote, dquote, dquote] @ doc @ [dquote, dquote, dquote, newline] @
            ''    return '' @ [dquote] @ lit @ [dquote, newline])
          = Some (doc @ [dquote, dquote, dquote, newline] @ ''    return '' @ [dquote] @ lit @ [dquote, newline])"
    using strip_prefix_append [of "''    '' @ [dquote, dquote, dquote]"] by simp
  have 2: "dropWhile plain_char (doc @ [dquote, dquote, dquote, newline] @ ''    return '' @ [dquote] @ lit @ [dquote, newline])
          = ([dquote, dquote, dquote, newline] @ ''    return '' @ [dquote]) @ lit @ [dquote, newline]"
    using assms(1) by (simp add: list_all_iff plain_char_def)
  have 3: "takeWhile (\<lambda>c. plain_char c \<and> c \<noteq> newline) (lit @ [dquote, newline]) = lit"
    using assms(2) by (simp add: list_all_iff plain_char_def)
  have 4: "dropWhile (\<lambda>c. plain_char c \<and> c \<noteq> newline) (lit @ [dquote, newline]) = [dquote, newline]"
    using assms(2) by (simp add: list_all_iff plain_char_def)
  show ?thesis
    unfolding exec_body_def 1 option.case 2 strip_prefix_append 3 4 Let_def by simp
qed

lemma func_code_source_chars:
  assumes "list_all identifier_char nm" and "plain_text desc"
  shows "list_all source_char (func_code nm desc)"
proof -
  have n: "list_all source_char nm"
    using assms(1) by (auto simp: list_all_iff dest: identifier_char_facts)
  have d: "list_all source_char desc"
    using assms(2) by (auto simp: plain_text_def list_all_iff)
  have k: "source_char newline" "source_char dquote"
    by (simp_all add: source_char_def dquote_def newline_def)
  have k2: "list_all source_char ''def goto_''" "list_all source_char ''():''"
    "list_all source_char ''    ''" "list_all source_char ''Route to ''"
    "list_all source_char '' plugin for ''" "list_all source_char ''    return ''"
    by (simp_all add: source_char_def newline_def)
  show ?thesis
    unfolding func_code_def using n d k k2 by simp
qed

lemma py_exec_func_code:
  assumes "list_all identifier_char nm" and "plain_text desc"
  shows "py_exec (func_code nm desc) =
           Returns [(''goto_'' @ nm, \<lparr>fn_name = ''goto_'' @ nm, fn_returns = nm\<rparr>)]"
proof -
  let ?doc = "''Route to '' @ nm @ '' plugin for '' @ desc"
  let ?body = "''    '' @ [dquote, dquote, dquote] @ ?doc @ [dquote, dquote, dquote, newline] @
            ''    return '' @ [dquote] @ nm @ [dquote, newline]"
  let ?ident = "''goto_'' @ nm"
  let ?rest = "(''():'' @ [newline]) @ ?body"
  have ni: "\<And>c. c \<in> set nm \<Longrightarrow> identifier_char c"
    using assms(1) by (simp add: list_all_iff)
  have fc: "func_code nm desc = (newline # ''def '') @ ?ident @ ?rest"
    by (simp add: func_code_def)
  have 0: "strip_prefix (newline # ''def '') (func_code nm desc) = Some (?ident @ ?rest)"
    unfolding fc by (rule strip_prefix_append)
  have i: "\<And>c. c \<in> set ?ident \<Longrightarrow> identifier_char c"
    using ni goto_identifier by (auto simp: list_all_iff)
  have r: "?rest = CHR ''('' # (''):'' @ [newline]) @ ?body"
    by simp
  have 1: "takeWhile identifier_char (?ident @ ?rest) = ?ident"
    unfolding r using i by (simp only: takeWhile_append2 takeWhile.simps open_paren_not_identifier if_False append_Nil2)
  have 2: "dropWhile identifier_char (?ident @ ?rest) = ?rest"
    unfolding r using i by (simp only: dropWhile_append2 dropWhile.simps open_paren_not_identifier if_False)
  have 3: "starts_identifier ?ident"
    by (simp add: starts_identifier_def)
  have 4: "strip_prefix (''():'' @ [newline]) ?rest = Some ?body"
    by (rule strip_prefix_append)
  have pk: "list_all plain_char ''Route to ''" "list_all plain_char '' plugin for ''"
    by (simp_all add: plain_char_def dquote_def backslash_def)
  have pn: "list_all plain_char nm"
    using ni identifier_char_facts by (simp add: list_all_iff)
  have pd: "list_all plain_char desc"
    using assms(2) by (simp add: plain_text_def list_all_iff)
  have doc: "list_all plain_char ?doc"
    using pk pn pd by simp
  have lit: "list_all (\<lambda>c. plain_char c \<and> c \<noteq> newline) nm"
    using ni identifier_char_facts by (simp add: list_all_iff)
  have src: "list_all source_char (func_code nm desc)"
    by (rule func_code_source_chars [OF assms])
  have kw: "?ident \<notin> set python_keywords"
    by (rule goto_not_keyword)
  show ?thesis
    unfolding py_exec_def 0 1 2 Let_def option.case 4 exec_body_plain [OF doc lit]
    using src 3 kw by simp
qed

lemma make_goto_tool_identifier:
  assumes "list_all identifier_char nm" and "plain_text desc"
  shows "make_goto_tool nm desc = Returns \<lparr>tool_name = ''goto_'' @ nm, tool_result = nm\<rparr>"
  unfolding make_goto_tool_def py_exec_func_code [OF assms]
  by (simp add: tool_decorator_def)

lemma goto_tools_step:
  assumes "plain_plugin contracts n"
  shows "goto_tools contracts (n # rest) =
           (case goto_tools contracts rest of
              Not_covered \<Rightarrow> Not_covered
            | Raises e \<Rightarrow> Raises e
            | Returns control_tools \<Rightarrow> Returns (goto_handle n # control_tools))"
proof -
  from assms obtain c md where
    c: "map_of contracts n = Some c" and md: "get_metadata c = Inr md" and
    i: "list_all identifier_char n" and d: "plain_text (description md)"
    by (auto simp: plain_plugin_def split: option.splits sum.splits)
  show ?thesis
    by (simp add: c md make_goto_tool_identifier [OF i d] goto_handle_def split: exec_outcome.splits)
qed

lemma goto_tools_identifier:
  "list_all (plain_plugin contracts) names \<Longrightarrow>
   goto_tools contracts names = Returns (map goto_handle names)"
proof (induction names)
  case Nil
  then show ?case by simp
next
  case (Cons n names)
  then have p: "plain_plugin contracts n" and IH: "goto_tools contracts names = Returns (map goto_handle names)"
    by simp_all
  show ?case
    unfolding goto_tools_step [OF p] IH by simp
qed

lemma coordinator_tools_plain:
  assumes "list_all (plain_plugin (plugin_contracts s)) (get_available_plugins s)"
  shows "get_coordinator_tools s = Returns (map goto_handle (get_available_plugins s) @ [finalize])"
  unfolding get_coordinator_tools_def goto_tools_identifier [OF assms] by simp

text \<open>
  C3. The claim: in every state \<open>get_coordinator_tools()\<close> returns one handle per available
  plugin plus \<open>finalize\<close>, and each plugin's handle yields that plugin's name. The code: with
  a plugin named \<open>my-plugin\<close> registered, the text handed to \<open>exec\<close> starts with
  \<open>def goto_my-plugin():\<close>, which is no function definition; \<open>exec\<close> raises
  \<open>SyntaxError\<close> and \<open>get_coordinator_tools()\<close> returns no handle at all.
\<close>

theorem hyphenated_name_raises:
  "get_available_plugins hyphen_registered = [''my-plugin''] \<and>
   get_coordinator_tools hyphen_registered = Raises SyntaxError"
  by (simp add: hyphen_registered_def run_defs example_defs exec_defs)

text \<open>
  Where the names are identifier characters and the descriptions plain text, the handles
  are as many as the available plugins plus one, each plugin's handle yields its own name
  and the last handle yields \<open>final\<close>.
\<close>

lemma coordinator_tools_count_and_signals:
  assumes "list_all (plain_plugin (plugin_contracts s)) (get_available_plugins s)"
  shows "\<exists>handles. get_coordinator_tools s = Returns handles \<and>
           length handles = length (get_available_plugins s) + 1 \<and>
           (\<forall>i < length (get_available_plugins s). invoke (handles ! i) = get_available_plugins s ! i) \<and>
           invoke (last handles) = ''final''"
  unfolding coordinator_tools_plain [OF assms]
  by (simp add: nth_append invoke_def finalize_def goto_handle_def)

section \<open>Well-formed managers\<close>

text \<open>
  The hypotheses on the manager state used above (distinct keys, allocated bundles) hold
  after \<open>__init__\<close> and are kept by every operation.
\<close>

lemma init_wellformed:
  "SDKPluginManager_init w factory = Inr s \<Longrightarrow> dictionaries_wellformed s"
  by (auto simp: SDKPluginManager_init_def dictionaries_wellformed_def get_available_plugins_def
      bundle_ids_allocated_def split: if_splits)

lemma step_ids:
  assumes "bundle_ids_allocated s"
  shows "bundle_ids_allocated (snd (create_plugin_bundle w c s))"
proof (cases "constructs w (llm_factory s) c")
  case True
  from step_constructs [OF True] obtain b where
    b: "built_bundle w (llm_factory s) (allocated s) c = Some b" and
    s': "snd (create_plugin_bundle w c s) =
         s\<lparr>plugin_bundles := AList.update (plugin_name_of c) b (plugin_bundles s),
           plugin_contracts := AList.update (plugin_name_of c) c (plugin_contracts s),
           healthy_plugins := insert (plugin_name_of c) (healthy_plugins s),
           allocated := Suc (allocated s)\<rparr>" by blast
  from built_bundle_fields [OF b] have fb: "object_id b = allocated s" by simp
  have "\<forall>b' \<in> snd ` set (AList.update (plugin_name_of c) b (plugin_bundles s)).
          object_id b' < Suc (allocated s)"
  proof
    fix b' assume "b' \<in> snd ` set (AList.update (plugin_name_of c) b (plugin_bundles s))"
    with set_update_subset [of "plugin_name_of c" b "plugin_bundles s"]
    have "b' = b \<or> b' \<in> snd ` set (plugin_bundles s)" by fastforce
    then show "object_id b' < Suc (allocated s)"
      using fb assms by (auto simp: bundle_ids_allocated_def less_Suc_eq)
  qed
  then show ?thesis by (simp add: s' bundle_ids_allocated_def)
next
  case False
  then show ?thesis using assms by (simp add: step_fails)
qed

lemma create_bundles_ids:
  "bundle_ids_allocated s \<Longrightarrow> bundle_ids_allocated (create_bundles w cs s)"
proof (induction cs arbitrary: s)
  case Nil
  then show ?case by simp
next
  case (Cons c cs)
  show ?case unfolding create_bundles_Cons
    by (rule Cons.IH) (rule step_ids [OF Cons.prems])
qed

lemma load_wellformed:
  "dictionaries_wellformed s \<Longrightarrow> dictionaries_wellformed (load_plugin_packages w s)"
  by (simp add: dictionaries_wellformed_def get_available_plugins_def bundle_ids_allocated_def
      load_fields)

lemma create_bundles_wellformed:
  "dictionaries_wellformed s \<Longrightarrow> dictionaries_wellformed (create_bundles w cs s)"
  unfolding dictionaries_wellformed_def get_available_plugins_def
  by (simp add: create_bundles_distinct create_bundles_ids)

lemma discover_and_load_wellformed:
  assumes "dictionaries_wellformed s"
  shows "dictionaries_wellformed (snd (discover_and_load_plugins w s))"
proof (cases "discover_plugins w")
  case (Inl e)
  then show ?thesis
    using load_wellformed [OF assms] by (simp add: discover_and_load_plugins_def)
next
  case (Inr cs)
  then show ?thesis
    using create_bundles_wellformed [OF load_wellformed [OF assms]]
    by (simp add: discover_and_load_eq)
qed

lemma perform_health_checks_wellformed:
  "dictionaries_wellformed s \<Longrightarrow> dictionaries_wellformed (snd (perform_health_checks s))"
  by (simp add: dictionaries_wellformed_def get_available_plugins_def bundle_ids_allocated_def
      perform_health_checks_def health_loop_fields)

lemma reload_wellformed:
  assumes "dictionaries_wellformed s"
  shows "dictionaries_wellformed (snd (reload_plugins w s))"
proof -
  let ?s0 = "s\<lparr>plugin_bundles := [], plugin_contracts := [],
                 healthy_plugins := {}, failed_plugins := {}\<rparr>"
  have 0: "dictionaries_wellformed ?s0"
    by (simp add: dictionaries_wellformed_def get_available_plugins_def bundle_ids_allocated_def)
  show ?thesis
  proof (cases "discover_and_load_plugins w ?s0")
    case (Pair r s1)
    with discover_and_load_wellformed [OF 0, of w] have 1: "dictionaries_wellformed s1" by simp
    show ?thesis
      using Pair 1 perform_health_checks_wellformed [OF 1]
      by (cases r) (simp_all add: reload_plugins_def)
  qed
qed

end
